theory Spec2Isabelle
  imports Main "HOL-Library.Word" "HOL-Library.Multiset"
begin

section \<open>Helm exporter (main.go): data\<close>

text \<open>
  Go's \<open>int64\<close> is a 64-bit word read as two's complement (\<open>sint\<close>); Go's \<open>int\<close> is taken
  at its 64-bit width. Every \<open>float64\<close> this program builds is integral (a literal of the
  status table, or a conversion from an integer), so a \<open>float64\<close> is kept as the integer it
  denotes. A Go \<open>error\<close> is kept as the text \<open>%v\<close> prints for it.
\<close>

type_synonym int64 = "64 word"
type_synonym float64 = int
type_synonym error = string

text \<open>Number of binary digits of a natural number.\<close>

fun bit_len :: "nat \<Rightarrow> nat" where
  "bit_len n = (if n = 0 then 0 else Suc (bit_len (n div 2)))"

declare bit_len.simps [simp del]

text \<open>
  The conversion \<open>float64(x)\<close> of a 64-bit integer: exact up to 53 binary digits, beyond
  that rounded to 53 significant digits, to nearest and ties to even (IEEE 754 binary64;
  no 64-bit integer is out of the exponent range).
\<close>

definition float64_of_int :: "int \<Rightarrow> float64" where
  "float64_of_int x =
     (let a = nat \<bar>x\<bar>; n = bit_len a in
      if n \<le> 53 then x
      else
        let e = n - 53;
            q = a div 2 ^ e;
            r = a mod 2 ^ e;
            h = 2 ^ (e - 1);
            q' = (if h < r \<or> (r = h \<and> odd q) then q + 1 else q)
        in sgn x * int (q' * 2 ^ e))"

definition float64_of_int64 :: "int64 \<Rightarrow> float64" where
  "float64_of_int64 w = float64_of_int (sint w)"

text \<open>\<open>strconv.FormatInt(i, 10)\<close>: the decimal digits, with a minus sign below zero.\<close>

fun digits10 :: "nat \<Rightarrow> string" where
  "digits10 n =
     (if n < 10 then [''0123456789'' ! n]
      else digits10 (n div 10) @ [''0123456789'' ! (n mod 10)])"

declare digits10.simps [simp del]

definition FormatInt10 :: "int64 \<Rightarrow> string" where
  "FormatInt10 i =
     (if sint i < 0 then CHR ''-'' # digits10 (nat (- sint i)) else digits10 (nat (sint i)))"

subsection \<open>Logging (logrus)\<close>

datatype Level = DebugLevel | InfoLevel | WarnLevel

record Entry =
  level :: Level
  data :: "(string \<times> string) list"
  message :: string

definition Warnf :: "string \<Rightarrow> Entry" where
  "Warnf msg = \<lparr>level = WarnLevel, data = [], message = msg\<rparr>"

definition Infof :: "string \<Rightarrow> Entry" where
  "Infof msg = \<lparr>level = InfoLevel, data = [], message = msg\<rparr>"

definition Debugf :: "(string \<times> string) list \<Rightarrow> string \<Rightarrow> Entry" where
  "Debugf fs msg = \<lparr>level = DebugLevel, data = fs, message = msg\<rparr>"

subsection \<open>Flags and the status table\<close>

record flags =
  infoMetric :: bool
  timestampMetric :: bool
  countAllReleasesMetric :: bool
  fetchLatest :: bool

text \<open>The defaults of the four \<open>flag.Bool\<close> declarations.\<close>

definition default_flags :: flags where
  "default_flags =
     \<lparr>infoMetric = True, timestampMetric = True, countAllReleasesMetric = True,
      fetchLatest = True\<rparr>"

definition statusCodeMap :: "string \<rightharpoonup> float64" where
  "statusCodeMap = map_of
     [(''unknown'', 0),
      (''deployed'', 1),
      (''uninstalled'', 2),
      (''superseded'', 3),
      (''failed'', - 1),
      (''uninstalling'', 5),
      (''pending-install'', 6),
      (''pending-upgrade'', 7),
      (''pending-rollback'', 8)]"

text \<open>
  Indexing a Go map, \<open>statusCodeMap[k]\<close>: a missing key gives the zero value of the
  element type, here \<open>0\<close>.
\<close>

definition statusCodeMap_at :: "string \<Rightarrow> float64" where
  "statusCodeMap_at k = (case statusCodeMap k of None \<Rightarrow> 0 | Some v \<Rightarrow> v)"

subsection \<open>Releases (helm.sh/helm/v3/pkg/release)\<close>

text \<open>
  The fields of a release that \<open>Collect\<close> reads, under the paths it reads them by:
  \<open>item.Name\<close>, \<open>item.Namespace\<close>, \<open>item.Version\<close> (the revision),
  \<open>item.Chart.Name()\<close>, \<open>item.Chart.Metadata.Version\<close>, \<open>item.Chart.AppVersion()\<close>,
  \<open>item.Info.LastDeployed.Unix()\<close> and \<open>item.Info.Status.String()\<close>. The pointers
  \<open>Chart\<close>, \<open>Chart.Metadata\<close> and \<open>Info\<close> of a listed release are taken to be set.
\<close>

record release =
  Name :: string
  Namespace :: string
  Version :: int64
  Chart_Name :: string
  Chart_Metadata_Version :: string
  Chart_AppVersion :: string
  Info_LastDeployed_Unix :: int64
  Info_Status :: string

subsection \<open>Descriptors and metrics (prometheus client)\<close>

record Desc =
  fqName :: string
  helpText :: string
  variableLabels :: "string list"

definition NewDesc :: "string \<Rightarrow> string \<Rightarrow> string list \<Rightarrow> Desc" where
  "NewDesc name hlp labels = \<lparr>fqName = name, helpText = hlp, variableLabels = labels\<rparr>"

datatype ValueType = CounterValue | GaugeValue | UntypedValue

record Metric =
  desc :: Desc
  valType :: ValueType
  val :: float64
  labelValues :: "string list"

datatype panic = InconsistentCardinality | InterfaceConversion

text \<open>
  \<open>prometheus.MustNewConstMetric\<close> panics when the number of label values is not the
  number of variable labels of the descriptor. Label values are taken to be valid UTF-8.
\<close>

definition MustNewConstMetric ::
  "Desc \<Rightarrow> ValueType \<Rightarrow> float64 \<Rightarrow> string list \<Rightarrow> panic + Metric" where
  "MustNewConstMetric d vt v lvs =
     (if length lvs \<noteq> length (variableLabels d) then Inl InconsistentCardinality
      else Inr \<lparr>desc = d, valType = vt, val = v, labelValues = lvs\<rparr>)"

record helmCollector =
  revisionsCounterDesc :: Desc
  statsInfoGaugeDesc :: Desc
  statsTimestampGaugeDesc :: Desc

definition newHelmCollector :: helmCollector where
  "newHelmCollector =
     \<lparr>revisionsCounterDesc = NewDesc
        ''helm_chart_all_releases_total''
        ''Total Number of all Helm releases''
        [''chart'', ''release'', ''namespace''],
      statsInfoGaugeDesc = NewDesc
        ''helm_chart_info''
        ''Information on helm releases''
        [''chart'', ''release'', ''version'', ''appVersion'', ''updated'', ''namespace'',
         ''latestVersion''],
      statsTimestampGaugeDesc = NewDesc
        ''helm_chart_timestamp''
        ''Timestamps of helm releases''
        [''chart'', ''release'', ''version'', ''appVersion'', ''updated'', ''namespace'',
         ''latestVersion'']\<rparr>"

subsection \<open>The chart registries (package registries)\<close>

text \<open>
  Modelled from the spec: the type \<open>registries.HelmRegistries\<close> is not among the
  sources. The spec (ChartVersionResolver) has a lookup of a chart name against the
  configured registries, which finds a version, finds nothing, or fails. The configured
  registries are kept as what the lookup of each chart name comes to.
\<close>

datatype lookup = Found string | NotFound | Failed error

type_synonym HelmRegistries = "string \<Rightarrow> lookup"

text \<open>
  Modelled from the spec: the method \<open>HelmRegistries.GetLatestVersionFromHelm\<close> of
  package \<open>registries\<close> is not among the sources. The spec (ChartVersionResolver):
  \<open>latestVersion(chartName) -> string\<close> must never raise a fatal error to the caller;
  any failure or "not found" resolves to an empty string.
\<close>

definition GetLatestVersionFromHelm :: "HelmRegistries \<Rightarrow> string \<Rightarrow> string" where
  "GetLatestVersionFromHelm r chart =
     (case r chart of Found v \<Rightarrow> v | NotFound \<Rightarrow> [] | Failed e \<Rightarrow> [])"

record Config =
  HelmRegistries :: HelmRegistries

section \<open>The registry of clients\<close>

text \<open>
  The global \<open>clients\<close> (a concurrent map from a namespace to its
  \<open>*action.Configuration\<close>) and what the program has logged. A configuration is opaque
  (\<open>'c\<close>). \<open>actionConfig.Init\<close> and \<open>list.Run\<close> talk to the cluster: what they return
  is a parameter, \<open>Init\<close> from a namespace to an error or a configuration, \<open>Run\<close> from
  a configuration to an error or the releases listed.
\<close>

record 'c state =
  clients :: "string \<rightharpoonup> 'c"
  logs :: "Entry list"

definition connect :: "(string \<Rightarrow> error + 'c) \<Rightarrow> string \<Rightarrow> 'c state \<Rightarrow> 'c state" where
  "connect Init namespace s =
     (case Init namespace of
        Inl err \<Rightarrow>
          s\<lparr>logs := logs s @ [Warnf (''failed to connect to '' @ namespace @ '' with '' @ err)]\<rparr>
      | Inr actionConfig \<Rightarrow>
          s\<lparr>logs := logs s @ [Infof (''Watching namespace '' @ namespace)],
            clients := (clients s)(namespace \<mapsto> actionConfig)\<rparr>)"

text \<open>
  What the informer hands to a handler: the namespace object, a \<open>*v1.Namespace\<close>, kept
  as its name; or, for a deletion that the watch missed and a relist found, the tombstone
  \<open>cache.DeletedFinalStateUnknown\<close>, kept as its key, which is no \<open>v1.Object\<close>.
\<close>

datatype object = Namespace_object string | DeletedFinalStateUnknown string

text \<open>
  \<open>obj.(v1.Object)\<close> followed by \<open>GetName()\<close>: the unchecked type assertion panics on
  what is no \<open>v1.Object\<close>.
\<close>

definition GetName :: "object \<Rightarrow> panic + string" where
  "GetName obj =
     (case obj of
        Namespace_object name \<Rightarrow> Inr name
      | DeletedFinalStateUnknown key \<Rightarrow> Inl InterfaceConversion)"

text \<open>The two handlers that \<open>informer\<close> registers.\<close>

definition AddFunc ::
  "(string \<Rightarrow> error + 'c) \<Rightarrow> object \<Rightarrow> 'c state \<Rightarrow> panic + 'c state" where
  "AddFunc Init obj s =
     (case GetName obj of
        Inl p \<Rightarrow> Inl p
      | Inr name \<Rightarrow> Inr (connect Init name s))"

definition DeleteFunc :: "object \<Rightarrow> 'c state \<Rightarrow> panic + 'c state" where
  "DeleteFunc obj s =
     (case GetName obj of
        Inl p \<Rightarrow> Inl p
      | Inr name \<Rightarrow>
          Inr (s\<lparr>logs := logs s @ [Infof (''Removing namespace '' @ name)],
                 clients := (clients s)(name := None)\<rparr>))"

text \<open>
  \<open>informer\<close>: it ends the process with \<open>log.Fatal\<close> when the configuration for
  \<open>settings.Namespace()\<close> or its client set cannot be built; otherwise the namespace
  events that the watch delivers reach the two handlers one after the other, and a
  handler that panics ends the process.
\<close>

datatype event = Added object | Removed object

fun deliver ::
  "(string \<Rightarrow> error + 'c) \<Rightarrow> event list \<Rightarrow> 'c state \<Rightarrow> panic + 'c state" where
  "deliver Init [] s = Inr s"
| "deliver Init (Added obj # events) s =
     (case AddFunc Init obj s of Inl p \<Rightarrow> Inl p | Inr s' \<Rightarrow> deliver Init events s')"
| "deliver Init (Removed obj # events) s =
     (case DeleteFunc obj s of Inl p \<Rightarrow> Inl p | Inr s' \<Rightarrow> deliver Init events s')"

datatype exit = Fatal error | Panicked panic

definition informer ::
  "(string \<Rightarrow> error + 'c) \<Rightarrow> string \<Rightarrow> ('c \<Rightarrow> error + 'k) \<Rightarrow> event list \<Rightarrow> 'c state
   \<Rightarrow> exit + 'c state" where
  "informer Init settings_Namespace KubernetesClientSet events s =
     (case Init settings_Namespace of
        Inl err \<Rightarrow> Inl (Fatal err)
      | Inr actionConfig \<Rightarrow>
          (case KubernetesClientSet actionConfig of
             Inl err \<Rightarrow> Inl (Fatal err)
           | Inr clientset \<Rightarrow>
               (case deliver Init events s of
                  Inl p \<Rightarrow> Inl (Panicked p)
                | Inr s' \<Rightarrow> Inr s')))"

text \<open>The loop of \<open>main\<close> over the configured namespaces (static mode).\<close>

fun main_connect :: "(string \<Rightarrow> error + 'c) \<Rightarrow> string list \<Rightarrow> 'c state \<Rightarrow> 'c state" where
  "main_connect Init [] s = s"
| "main_connect Init (namespace # rest) s = main_connect Init rest (connect Init namespace s)"

text \<open>
  \<open>clients.Items()\<close> copies the registry into a Go map, and \<open>range\<close> visits its entries
  in no fixed order: \<open>Items m xs\<close> says that \<open>xs\<close> is the entries of \<open>m\<close>, each once, in
  some order.
\<close>

definition Items :: "(string \<rightharpoonup> 'c) \<Rightarrow> (string \<times> 'c) list \<Rightarrow> bool" where
  "Items m xs = (distinct (map fst xs) \<and> map_of xs = m)"

section \<open>The collector\<close>

definition Describe :: "helmCollector \<Rightarrow> flags \<Rightarrow> Desc list" where
  "Describe c fl =
     [revisionsCounterDesc c]
     @ (if infoMetric fl = True then [statsInfoGaugeDesc c] else [])
     @ (if timestampMetric fl = True then [statsTimestampGaugeDesc c] else [])"

definition getLatestChartVersionFromHelm ::
  "string \<Rightarrow> HelmRegistries \<Rightarrow> string \<times> Entry list" where
  "getLatestChartVersionFromHelm name helmRegistries =
     (let version = GetLatestVersionFromHelm helmRegistries name
      in (version, [Debugf [(''chart'', name)] (''last chart repo version is  '' @ version)]))"

text \<open>
  What a piece of \<open>Collect\<close> does: it panics, or it has sent metrics to the channel and
  logged entries. \<open>seq a b\<close> is \<open>a\<close> followed by \<open>b\<close>; a panic ends the scrape.
\<close>

type_synonym emission = "panic + Metric list \<times> Entry list"

definition seq :: "emission \<Rightarrow> emission \<Rightarrow> emission" where
  "seq a b =
     (case a of
        Inl p \<Rightarrow> Inl p
      | Inr (ms, lg) \<Rightarrow>
          (case b of Inl p \<Rightarrow> Inl p | Inr (ms', lg') \<Rightarrow> Inr (ms @ ms', lg @ lg')))"

definition send :: "panic + Metric \<Rightarrow> emission" where
  "send m = (case m of Inl p \<Rightarrow> Inl p | Inr x \<Rightarrow> Inr ([x], []))"

definition skip :: emission where
  "skip = Inr ([], [])"

definition logged :: "Entry list \<Rightarrow> emission" where
  "logged lg = Inr ([], lg)"

text \<open>The body of the inner loop of \<open>Collect\<close>, for one release.\<close>

definition Collect_item :: "helmCollector \<Rightarrow> flags \<Rightarrow> Config \<Rightarrow> release \<Rightarrow> emission" where
  "Collect_item c fl cfg item =
     (let chart = Chart_Name item;
          releaseName = Name item;
          version = Chart_Metadata_Version item;
          appVersion = Chart_AppVersion item;
          updated = Info_LastDeployed_Unix item * 1000;
          namespace = Namespace item;
          status = statusCodeMap_at (Info_Status item);
          (latestVersion, lg) =
            (if fetchLatest fl
             then getLatestChartVersionFromHelm (Chart_Name item) (HelmRegistries cfg)
             else ([], []));
          helmRevisionsLabelValues = [chart, releaseName, namespace];
          helmStatsInfoLabelValues =
            [chart, releaseName, version, appVersion, FormatInt10 updated, namespace,
             latestVersion];
          helmStatsTimestampLabelValues =
            [chart, releaseName, version, appVersion, FormatInt10 updated, namespace,
             latestVersion]
      in seq (logged lg)
        (seq (send (MustNewConstMetric (revisionsCounterDesc c) CounterValue
                 (float64_of_int64 (Version item)) helmRevisionsLabelValues))
        (seq (if infoMetric fl = True
              then send (MustNewConstMetric (statsInfoGaugeDesc c) GaugeValue
                     status helmStatsInfoLabelValues)
              else skip)
             (if timestampMetric fl = True
              then send (MustNewConstMetric (statsTimestampGaugeDesc c) GaugeValue
                     (float64_of_int64 updated) helmStatsTimestampLabelValues)
              else skip))))"

text \<open>The inner loop, over the releases listed for one client.\<close>

fun Collect_items :: "helmCollector \<Rightarrow> flags \<Rightarrow> Config \<Rightarrow> release list \<Rightarrow> emission" where
  "Collect_items c fl cfg [] = skip"
| "Collect_items c fl cfg (item # items) =
     seq (Collect_item c fl cfg item) (Collect_items c fl cfg items)"

text \<open>The body of the outer loop, for one entry of the registry.\<close>

definition Collect_client ::
  "helmCollector \<Rightarrow> flags \<Rightarrow> Config \<Rightarrow> ('c \<Rightarrow> error + release list) \<Rightarrow> string \<times> 'c \<Rightarrow> emission"
  where
  "Collect_client c fl cfg Run entry =
     (case Run (snd entry) of
        Inl err \<Rightarrow> logged [Warnf (''got error while listing '' @ err)]
      | Inr items \<Rightarrow> Collect_items c fl cfg items)"

text \<open>\<open>Collect\<close>: the outer loop, over the entries \<open>clients.Items()\<close> in the order visited.\<close>

fun Collect ::
  "helmCollector \<Rightarrow> flags \<Rightarrow> Config \<Rightarrow> ('c \<Rightarrow> error + release list) \<Rightarrow> (string \<times> 'c) list
   \<Rightarrow> emission" where
  "Collect c fl cfg Run [] = skip"
| "Collect c fl cfg Run (entry # rest) =
     seq (Collect_client c fl cfg Run entry) (Collect c fl cfg Run rest)"

text \<open>A scrape of the process in state \<open>s\<close>: \<open>Collect\<close> on the registry's entries.\<close>

definition scrape ::
  "helmCollector \<Rightarrow> flags \<Rightarrow> Config \<Rightarrow> ('c \<Rightarrow> error + release list) \<Rightarrow> (string \<times> 'c) list
   \<Rightarrow> 'c state \<Rightarrow> (panic + Metric list) \<times> 'c state" where
  "scrape c fl cfg Run xs s =
     (case Collect c fl cfg Run xs of
        Inl p \<Rightarrow> (Inl p, s)
      | Inr (ms, lg) \<Rightarrow> (Inr ms, s\<lparr>logs := logs s @ lg\<rparr>))"

section \<open>Observations on a scrape\<close>

text \<open>The metrics and the log entries of an emission (none after a panic).\<close>

definition metrics_of :: "emission \<Rightarrow> Metric list" where
  "metrics_of e = (case e of Inl p \<Rightarrow> [] | Inr (ms, lg) \<Rightarrow> ms)"

definition logs_of :: "emission \<Rightarrow> Entry list" where
  "logs_of e = (case e of Inl p \<Rightarrow> [] | Inr (ms, lg) \<Rightarrow> lg)"

text \<open>The metrics of one metric name, and the value a metric has for a label name.\<close>

definition named :: "string \<Rightarrow> Metric list \<Rightarrow> Metric list" where
  "named n ms = filter (\<lambda>m. fqName (desc m) = n) ms"


text \<open>A metric with the value of its label \<open>latestVersion\<close>, if it has one, blanked.\<close>

definition without_latestVersion :: "Metric \<Rightarrow> Metric" where
  "without_latestVersion m =
     m\<lparr>labelValues :=
         map (\<lambda>(n, v). if n = ''latestVersion'' then [] else v)
           (zip (variableLabels (desc m)) (labelValues m))\<rparr>"

text \<open>
  The releases that the listing calls of a scrape return, in the order of the entries
  visited; an entry whose listing fails gives none.
\<close>

definition listed :: "('c \<Rightarrow> error + release list) \<Rightarrow> (string \<times> 'c) list \<Rightarrow> release list" where
  "listed Run xs =
     concat (map (\<lambda>entry. case Run (snd entry) of Inl err \<Rightarrow> [] | Inr items \<Rightarrow> items) xs)"

subsection \<open>A concrete cluster\<close>

text \<open>
  Namespace \<open>prod\<close> holds one release, the listing of namespace \<open>dev\<close> fails, and no
  registry knows a chart.
\<close>

definition web_release :: release where
  "web_release =
     \<lparr>Name = ''web'', Namespace = ''prod'', Version = 3, Chart_Name = ''nginx'',
      Chart_Metadata_Version = ''1.2.0'', Chart_AppVersion = ''1.21'',
      Info_LastDeployed_Unix = 1700000000, Info_Status = ''deployed''\<rparr>"

definition no_registries :: Config where
  "no_registries = \<lparr>HelmRegistries = (\<lambda>chart. NotFound)\<rparr>"

definition cluster_Run :: "nat \<Rightarrow> error + release list" where
  "cluster_Run client = (if client = 0 then Inr [web_release] else Inl ''timeout'')"

definition cluster_entries :: "(string \<times> nat) list" where
  "cluster_entries = [(''prod'', 0), (''dev'', 1)]"

definition cluster_Init :: "string \<Rightarrow> error + nat" where
  "cluster_Init namespace =
     (if namespace = ''prod'' then Inr 0 else Inl ''unreachable'')"

definition no_clients :: "nat state" where
  "no_clients = \<lparr>clients = Map.empty, logs = []\<rparr>"

text \<open>A listing with a failed release and one whose status is outside the table.\<close>

definition failed_Run :: "nat \<Rightarrow> error + release list" where
  "failed_Run client =
     Inr [web_release\<lparr>Info_Status := ''failed''\<rparr>, web_release\<lparr>Info_Status := ''rotten''\<rparr>]"

text \<open>The cluster once the listing of namespace \<open>dev\<close> succeeds, with one release.\<close>

definition api_release :: release where
  "api_release = web_release\<lparr>Name := ''api'', Namespace := ''dev''\<rparr>"

definition healthy_Run :: "nat \<Rightarrow> error + release list" where
  "healthy_Run client = (if client = 1 then Inr [api_release] else Inr [web_release])"


text \<open>A process that watches the namespaces \<open>prod\<close> and \<open>dev\<close>.\<close>

definition watching :: "nat state" where
  "watching = \<lparr>clients = [''prod'' \<mapsto> 7, ''dev'' \<mapsto> 1], logs = []\<rparr>"

text \<open>
  Registries that know a version of every chart, and the entries of the watching process
  in two orders of visit.
\<close>

definition found_registries :: Config where
  "found_registries = \<lparr>HelmRegistries = (\<lambda>chart. Found ''9.9.9'')\<rparr>"

definition watching_entries :: "(string \<times> nat) list" where
  "watching_entries = [(''prod'', 7), (''dev'', 1)]"

definition watching_entries' :: "(string \<times> nat) list" where
  "watching_entries' = [(''dev'', 1), (''prod'', 7)]"

section \<open>The shape of a scrape\<close>

lemma seq_Inr: "seq (Inr (ms, lg)) (Inr (ms', lg')) = Inr (ms @ ms', lg @ lg')"
  by (simp add: seq_def)

text \<open>With the registered collector, the body of the inner loop never panics.\<close>

lemma Collect_item_new:
  "Collect_item newHelmCollector fl cfg item =
     Inr ([\<lparr>desc = revisionsCounterDesc newHelmCollector, valType = CounterValue,
            val = float64_of_int64 (Version item),
            labelValues = [Chart_Name item, Name item, Namespace item]\<rparr>]
          @ (if infoMetric fl
             then [\<lparr>desc = statsInfoGaugeDesc newHelmCollector, valType = GaugeValue,
                    val = statusCodeMap_at (Info_Status item),
                    labelValues =
                      [Chart_Name item, Name item, Chart_Metadata_Version item,
                       Chart_AppVersion item, FormatInt10 (Info_LastDeployed_Unix item * 1000),
                       Namespace item,
                       (if fetchLatest fl
                        then GetLatestVersionFromHelm (HelmRegistries cfg) (Chart_Name item)
                        else [])]\<rparr>]
             else [])
          @ (if timestampMetric fl
             then [\<lparr>desc = statsTimestampGaugeDesc newHelmCollector, valType = GaugeValue,
                    val = float64_of_int64 (Info_LastDeployed_Unix item * 1000),
                    labelValues =
                      [Chart_Name item, Name item, Chart_Metadata_Version item,
                       Chart_AppVersion item, FormatInt10 (Info_LastDeployed_Unix item * 1000),
                       Namespace item,
                       (if fetchLatest fl
                        then GetLatestVersionFromHelm (HelmRegistries cfg) (Chart_Name item)
                        else [])]\<rparr>]
             else []),
          (if fetchLatest fl
           then snd (getLatestChartVersionFromHelm (Chart_Name item) (HelmRegistries cfg))
           else []))"
  by (simp add: Collect_item_def Let_def split_beta newHelmCollector_def NewDesc_def
      MustNewConstMetric_def send_def skip_def logged_def seq_Inr
      getLatestChartVersionFromHelm_def)

lemma Collect_item_returns:
  "Collect_item newHelmCollector fl cfg item =
     Inr (metrics_of (Collect_item newHelmCollector fl cfg item),
          logs_of (Collect_item newHelmCollector fl cfg item))"
  by (simp add: Collect_item_new metrics_of_def logs_of_def)

lemma Collect_items_returns:
  "Collect_items newHelmCollector fl cfg items =
     Inr (concat (map (\<lambda>item. metrics_of (Collect_item newHelmCollector fl cfg item)) items),
          concat (map (\<lambda>item. logs_of (Collect_item newHelmCollector fl cfg item)) items))"
proof (induction items)
  case Nil
  show ?case by (simp add: skip_def)
next
  case (Cons item items)
  have "Collect_items newHelmCollector fl cfg (item # items) =
        seq (Collect_item newHelmCollector fl cfg item)
          (Collect_items newHelmCollector fl cfg items)"
    by simp
  also have "\<dots> =
        Inr (metrics_of (Collect_item newHelmCollector fl cfg item)
             @ concat (map (\<lambda>item. metrics_of (Collect_item newHelmCollector fl cfg item)) items),
             logs_of (Collect_item newHelmCollector fl cfg item)
             @ concat (map (\<lambda>item. logs_of (Collect_item newHelmCollector fl cfg item)) items))"
    by (subst Collect_item_returns, subst Cons.IH) (simp add: seq_Inr)
  finally show ?case by simp
qed

lemma listed_Cons: "listed Run (entry # rest) = listed Run [entry] @ listed Run rest"
  by (simp add: listed_def)

lemma Collect_client_returns:
  "Collect_client newHelmCollector fl cfg Run entry =
     Inr (concat (map (\<lambda>item. metrics_of (Collect_item newHelmCollector fl cfg item))
            (listed Run [entry])),
          logs_of (Collect_client newHelmCollector fl cfg Run entry))"
  by (cases "Run (snd entry)")
     (simp_all add: Collect_client_def listed_def logged_def logs_of_def Collect_items_returns)

text \<open>
  A scrape with the registered collector returns, and its metrics are those of the
  releases listed, release by release.
\<close>

lemma Collect_returns:
  "Collect newHelmCollector fl cfg Run xs =
     Inr (concat (map (\<lambda>item. metrics_of (Collect_item newHelmCollector fl cfg item))
            (listed Run xs)),
          logs_of (Collect newHelmCollector fl cfg Run xs))"
proof (induction xs)
  case Nil
  show ?case by (simp add: skip_def listed_def logs_of_def)
next
  case (Cons entry rest)
  have "Collect newHelmCollector fl cfg Run (entry # rest) =
        seq (Collect_client newHelmCollector fl cfg Run entry)
          (Collect newHelmCollector fl cfg Run rest)"
    by simp
  also have "\<dots> =
        Inr (concat (map (\<lambda>item. metrics_of (Collect_item newHelmCollector fl cfg item))
               (listed Run [entry]))
             @ concat (map (\<lambda>item. metrics_of (Collect_item newHelmCollector fl cfg item))
                 (listed Run rest)),
             logs_of (Collect_client newHelmCollector fl cfg Run entry)
             @ logs_of (Collect newHelmCollector fl cfg Run rest))"
    by (subst Collect_client_returns, subst Cons.IH) (simp add: seq_Inr)
  finally show ?case
    by (simp add: listed_Cons [of Run entry rest] logs_of_def)
qed

lemma metrics_of_Collect:
  "metrics_of (Collect newHelmCollector fl cfg Run xs) =
     concat (map (\<lambda>item. metrics_of (Collect_item newHelmCollector fl cfg item))
       (listed Run xs))"
  by (subst Collect_returns) (simp add: metrics_of_def)

section \<open>Integers as \<open>float64\<close>\<close>

lemma bit_len_le: "n < 2 ^ k \<Longrightarrow> bit_len n \<le> k"
proof (induction k arbitrary: n)
  case 0
  then show ?case by (simp add: bit_len.simps)
next
  case (Suc k)
  show ?case
  proof (cases "n = 0")
    case True
    then show ?thesis by (simp add: bit_len.simps)
  next
    case False
    from Suc.prems have "n div 2 < 2 ^ k" by simp
    then have "bit_len (n div 2) \<le> k" by (rule Suc.IH)
    with False show ?thesis by (subst bit_len.simps) simp
  qed
qed

lemma float64_of_int_exact: "\<bar>x\<bar> < 2 ^ 53 \<Longrightarrow> float64_of_int x = x"
proof -
  assume "\<bar>x\<bar> < 2 ^ 53"
  then have "nat \<bar>x\<bar> < 2 ^ 53" by simp
  then have "bit_len (nat \<bar>x\<bar>) \<le> 53" by (rule bit_len_le)
  then show ?thesis by (simp add: float64_of_int_def Let_def)
qed

lemma sint_times_1000:
  assumes "\<bar>sint (w :: int64) * 1000\<bar> < 2 ^ 53"
  shows "sint (w * 1000) = sint w * 1000"
proof -
  have "sint (w * 1000) = signed_take_bit 63 (sint w * sint (1000 :: int64))"
    by (simp add: sint_word_ariths)
  also have "sint (1000 :: int64) = 1000" by simp
  also have "signed_take_bit 63 (sint w * 1000) = sint w * 1000"
    using assms by (intro signed_take_bit_int_eq_self) auto
  finally show ?thesis .
qed

section \<open>The metrics of each name\<close>

lemma metrics_of_Inr: "e = Inr (ms, lg) \<Longrightarrow> metrics_of e = ms"
  by (simp add: metrics_of_def)

lemma named_concat:
  "named n (concat (map f xs)) = concat (map (\<lambda>x. named n (f x)) xs)"
  by (simp add: named_def filter_concat comp_def)

lemma map_concat_single: "concat (map (\<lambda>x. [f x]) xs) = map f xs"
  by (induction xs) simp_all

lemma metrics_of_Collect_item:
  "metrics_of (Collect_item newHelmCollector fl cfg item) =
     [\<lparr>desc = revisionsCounterDesc newHelmCollector, valType = CounterValue,
            val = float64_of_int64 (Version item),
            labelValues = [Chart_Name item, Name item, Namespace item]\<rparr>]
          @ (if infoMetric fl
             then [\<lparr>desc = statsInfoGaugeDesc newHelmCollector, valType = GaugeValue,
                    val = statusCodeMap_at (Info_Status item),
                    labelValues =
                      [Chart_Name item, Name item, Chart_Metadata_Version item,
                       Chart_AppVersion item, FormatInt10 (Info_LastDeployed_Unix item * 1000),
                       Namespace item,
                       (if fetchLatest fl
                        then GetLatestVersionFromHelm (HelmRegistries cfg) (Chart_Name item)
                        else [])]\<rparr>]
             else [])
          @ (if timestampMetric fl
             then [\<lparr>desc = statsTimestampGaugeDesc newHelmCollector, valType = GaugeValue,
                    val = float64_of_int64 (Info_LastDeployed_Unix item * 1000),
                    labelValues =
                      [Chart_Name item, Name item, Chart_Metadata_Version item,
                       Chart_AppVersion item, FormatInt10 (Info_LastDeployed_Unix item * 1000),
                       Namespace item,
                       (if fetchLatest fl
                        then GetLatestVersionFromHelm (HelmRegistries cfg) (Chart_Name item)
                        else [])]\<rparr>]
             else [])"
  by (rule metrics_of_Inr) (rule Collect_item_new)

lemma fqName_new:
  "fqName (revisionsCounterDesc newHelmCollector) = ''helm_chart_all_releases_total''"
  "fqName (statsInfoGaugeDesc newHelmCollector) = ''helm_chart_info''"
  "fqName (statsTimestampGaugeDesc newHelmCollector) = ''helm_chart_timestamp''"
  by (simp_all add: newHelmCollector_def NewDesc_def)

lemma named_revisions_item:
  "named ''helm_chart_all_releases_total'' (metrics_of (Collect_item newHelmCollector fl cfg item)) =
     [\<lparr>desc = revisionsCounterDesc newHelmCollector, valType = CounterValue,
       val = float64_of_int64 (Version item),
       labelValues = [Chart_Name item, Name item, Namespace item]\<rparr>]"
  unfolding metrics_of_Collect_item by (simp add: named_def fqName_new)

lemma named_info_item:
  "map val (named ''helm_chart_info'' (metrics_of (Collect_item newHelmCollector fl cfg item))) =
     (if infoMetric fl then [statusCodeMap_at (Info_Status item)] else [])"
  unfolding metrics_of_Collect_item by (simp add: named_def fqName_new)

lemma named_timestamp_item:
  "map val (named ''helm_chart_timestamp'' (metrics_of (Collect_item newHelmCollector fl cfg item))) =
     (if timestampMetric fl then [float64_of_int64 (Info_LastDeployed_Unix item * 1000)] else [])"
  unfolding metrics_of_Collect_item by (simp add: named_def fqName_new)

lemma float64_millis_exact:
  "\<bar>sint (w :: int64) * 1000\<bar> < 2 ^ 53 \<Longrightarrow> float64_of_int64 (w * 1000) = sint w * 1000"
  by (simp add: float64_of_int64_def sint_times_1000 float64_of_int_exact)

lemma listed_cluster: "listed cluster_Run cluster_entries = [web_release]"
  by (simp add: listed_def cluster_Run_def cluster_entries_def)

lemma web_release_millis:
  "\<bar>sint (Info_LastDeployed_Unix web_release) * 1000\<bar> < 2 ^ 53"
  "sint (Info_LastDeployed_Unix web_release) * 1000 = 1700000000000"
  by (simp_all add: web_release_def)

lemma statusCodeMap_at_table:
  "statusCodeMap_at ''unknown'' = 0"
  "statusCodeMap_at ''deployed'' = 1"
  "statusCodeMap_at ''uninstalled'' = 2"
  "statusCodeMap_at ''superseded'' = 3"
  "statusCodeMap_at ''failed'' = - 1"
  "statusCodeMap_at ''uninstalling'' = 5"
  "statusCodeMap_at ''pending-install'' = 6"
  "statusCodeMap_at ''pending-upgrade'' = 7"
  "statusCodeMap_at ''pending-rollback'' = 8"
  by (simp_all add: statusCodeMap_at_def statusCodeMap_def)

lemma statusCodeMap_at_default:
  "s \<notin> {''unknown'', ''deployed'', ''uninstalled'', ''superseded'', ''failed'',
         ''uninstalling'', ''pending-install'', ''pending-upgrade'', ''pending-rollback''}
   \<Longrightarrow> statusCodeMap_at s = 0"
  by (simp add: statusCodeMap_at_def statusCodeMap_def)

lemma info_values:
  "infoMetric fl \<Longrightarrow>
   map val (named ''helm_chart_info''
     (concat (map (\<lambda>item. metrics_of (Collect_item newHelmCollector fl cfg item)) rs))) =
   map (\<lambda>item. statusCodeMap_at (Info_Status item)) rs"
proof -
  assume i: "infoMetric fl"
  have "map val (named ''helm_chart_info''
     (concat (map (\<lambda>item. metrics_of (Collect_item newHelmCollector fl cfg item)) rs))) =
     concat (map (\<lambda>item. map val (named ''helm_chart_info''
          (metrics_of (Collect_item newHelmCollector fl cfg item)))) rs)"
    by (simp add: named_concat map_concat comp_def)
  also have "\<dots> = map (\<lambda>item. statusCodeMap_at (Info_Status item)) rs"
    using i by (simp add: named_info_item map_concat_single)
  finally show ?thesis .
qed

lemma listed_concat: "listed Run xs = concat (map (\<lambda>entry. listed Run [entry]) xs)"
  by (induction xs) (simp_all add: listed_def)

lemma metrics_of_Collect_client:
  "metrics_of (Collect_client newHelmCollector fl cfg Run entry) =
     concat (map (\<lambda>item. metrics_of (Collect_item newHelmCollector fl cfg item))
       (listed Run [entry]))"
  by (rule metrics_of_Inr) (rule Collect_client_returns)

lemma metrics_of_Collect_by_client:
  "metrics_of (Collect newHelmCollector fl cfg Run xs) =
     concat (map (\<lambda>entry. metrics_of (Collect_client newHelmCollector fl cfg Run entry)) xs)"
proof -
  have "concat (map f (listed Run xs)) = concat (map (\<lambda>entry. concat (map f (listed Run [entry]))) xs)"
    for f :: "release \<Rightarrow> Metric list"
  proof (induction xs)
    case Nil
    show ?case by (simp add: listed_def)
  next
    case (Cons entry rest)
    then show ?case by (simp add: listed_Cons [of Run entry rest])
  qed
  then show ?thesis
    by (simp only: metrics_of_Collect metrics_of_Collect_client)
qed

lemma revisions_of_items:
  "named ''helm_chart_all_releases_total''
     (concat (map (\<lambda>item. metrics_of (Collect_item newHelmCollector fl cfg item)) rs)) =
   map (\<lambda>item. \<lparr>desc = revisionsCounterDesc newHelmCollector, valType = CounterValue,
       val = float64_of_int64 (Version item),
       labelValues = [Chart_Name item, Name item, Namespace item]\<rparr>) rs"
  by (simp add: named_concat named_revisions_item map_concat_single)

lemma float64_revision_exact:
  "\<bar>sint (w :: int64)\<bar> < 2 ^ 53 \<Longrightarrow> float64_of_int64 w = sint w"
  by (simp add: float64_of_int64_def float64_of_int_exact)

section \<open>The flags\<close>

lemma info_off_item:
  "metrics_of (Collect_item newHelmCollector (fl\<lparr>infoMetric := False\<rparr>) cfg item) =
     filter (\<lambda>m. fqName (desc m) \<noteq> ''helm_chart_info'')
       (metrics_of (Collect_item newHelmCollector (fl\<lparr>infoMetric := True\<rparr>) cfg item))"
  unfolding metrics_of_Collect_item by (simp add: fqName_new)

lemma info_off_items:
  "concat (map (\<lambda>item. metrics_of (Collect_item newHelmCollector (fl\<lparr>infoMetric := False\<rparr>) cfg item)) rs) =
     filter (\<lambda>m. fqName (desc m) \<noteq> ''helm_chart_info'')
       (concat (map (\<lambda>item. metrics_of (Collect_item newHelmCollector (fl\<lparr>infoMetric := True\<rparr>) cfg item)) rs))"
  by (induction rs) (simp_all add: info_off_item)

lemma named_filter_other:
  "n \<noteq> n' \<Longrightarrow> named n (filter (\<lambda>m. fqName (desc m) \<noteq> n') ms) = named n ms"
  by (induction ms) (auto simp: named_def)

lemma named_filter_same: "named n (filter (\<lambda>m. fqName (desc m) \<noteq> n) ms) = []"
  by (induction ms) (auto simp: named_def)

lemma Collect_item_count_flag:
  "Collect_item c (fl\<lparr>countAllReleasesMetric := b\<rparr>) cfg item = Collect_item c fl cfg item"
  by (simp add: Collect_item_def)

lemma Collect_items_count_flag:
  "Collect_items c (fl\<lparr>countAllReleasesMetric := b\<rparr>) cfg items = Collect_items c fl cfg items"
  by (induction items) (simp_all add: Collect_item_count_flag)

lemma Collect_client_count_flag:
  "Collect_client c (fl\<lparr>countAllReleasesMetric := b\<rparr>) cfg Run entry =
     Collect_client c fl cfg Run entry"
  by (simp add: Collect_client_def Collect_items_count_flag cong: sum.case_cong)

lemma Collect_count_flag:
  "Collect c (fl\<lparr>countAllReleasesMetric := b\<rparr>) cfg Run xs = Collect c fl cfg Run xs"
  by (induction xs) (simp_all add: Collect_client_count_flag)

section \<open>One entry among the others\<close>

lemma seq_skip_left: "seq skip b = b"
  by (cases b) (auto simp: seq_def skip_def)

lemma seq_assoc: "seq (seq a b) c = seq a (seq b c)"
  by (cases a; cases b; cases c) (auto simp: seq_def)

lemma Collect_append:
  "Collect c fl cfg Run (xs @ ys) = seq (Collect c fl cfg Run xs) (Collect c fl cfg Run ys)"
  by (induction xs) (simp_all add: seq_skip_left seq_assoc)

lemma Collect_client_cong:
  "Run' (snd entry) = Run (snd entry) \<Longrightarrow>
   Collect_client c fl cfg Run' entry = Collect_client c fl cfg Run entry"
  by (simp add: Collect_client_def)

lemma Collect_cong:
  "\<forall>entry \<in> set xs. Run' (snd entry) = Run (snd entry) \<Longrightarrow>
   Collect c fl cfg Run' xs = Collect c fl cfg Run xs"
proof (induction xs)
  case Nil
  show ?case by simp
next
  case (Cons entry rest)
  then have "Collect_client c fl cfg Run' entry = Collect_client c fl cfg Run entry"
    and "Collect c fl cfg Run' rest = Collect c fl cfg Run rest"
    by (simp_all add: Collect_client_def)
  then show ?case by simp
qed

section \<open>The latest chart version\<close>


section \<open>The registry and the namespace label\<close>




lemma scrape_clients: "clients (snd (scrape c fl cfg Run xs s)) = clients s"
  by (simp add: scrape_def split: sum.splits prod.splits)





section \<open>Scrape after scrape\<close>

lemma Items_mset:
  assumes "Items m xs" and "Items m ys"
  shows "mset xs = mset ys"
proof -
  from assms have dx: "distinct (map fst xs)" and dy: "distinct (map fst ys)"
    and eq: "map_of xs = map_of ys"
    by (simp_all add: Items_def)
  from dx dy eq have "set xs = set ys" by (simp add: map_of_inject_set)
  moreover from dx have "distinct xs" by (simp add: distinct_map)
  moreover from dy have "distinct ys" by (simp add: distinct_map)
  ultimately show ?thesis by (simp add: set_eq_iff_mset_eq_distinct)
qed

lemma mset_concat_map:
  "mset (concat (map f xs)) = sum_mset (image_mset (\<lambda>x. mset (f x)) (mset xs))"
  by (induction xs) simp_all

lemma mset_concat_map_cong:
  "mset xs = mset ys \<Longrightarrow> mset (concat (map f xs)) = mset (concat (map f ys))"
  by (simp add: mset_concat_map)

lemma without_latestVersion_item:
  "map without_latestVersion (metrics_of (Collect_item newHelmCollector fl cfg' item)) =
   map without_latestVersion (metrics_of (Collect_item newHelmCollector fl cfg item))"
  unfolding metrics_of_Collect_item
  by (simp add: without_latestVersion_def newHelmCollector_def NewDesc_def)

lemma same_registries_item:
  "HelmRegistries cfg' = HelmRegistries cfg \<Longrightarrow>
   metrics_of (Collect_item newHelmCollector fl cfg' item) =
   metrics_of (Collect_item newHelmCollector fl cfg item)"
  unfolding metrics_of_Collect_item by simp

lemma scrape_new:
  "scrape newHelmCollector fl cfg Run xs s =
     (Inr (concat (map (\<lambda>item. metrics_of (Collect_item newHelmCollector fl cfg item))
             (listed Run xs))),
      s\<lparr>logs := logs s @ logs_of (Collect newHelmCollector fl cfg Run xs)\<rparr>)"
  unfolding scrape_def by (subst Collect_returns) simp

section \<open>The claims\<close>

text \<open>
  C1, as amended. In a scrape with the timestamp metric enabled, the scrape returns and
  the values of its \<open>helm_chart_timestamp\<close> metrics are, release by release over the
  releases listed, the \<open>float64\<close> of \<open>updated\<close>, the last-deployed epoch seconds
  multiplied by 1000 in \<open>int64\<close>: the last-deployed time in epoch milliseconds, not in
  seconds. Where the product is below \<open>2^53\<close> in magnitude the value is exactly the
  seconds times 1000.
\<close>

theorem timestamp_value_epoch_millis:
  assumes "timestampMetric fl"
  shows "\<exists>ms lg. Collect newHelmCollector fl cfg Run xs = Inr (ms, lg) \<and>
           map val (named ''helm_chart_timestamp'' ms) =
             map (\<lambda>item. float64_of_int64 (Info_LastDeployed_Unix item * 1000)) (listed Run xs) \<and>
           (\<forall>item \<in> set (listed Run xs).
              \<bar>sint (Info_LastDeployed_Unix item) * 1000\<bar> < 2 ^ 53 \<longrightarrow>
              float64_of_int64 (Info_LastDeployed_Unix item * 1000) =
                sint (Info_LastDeployed_Unix item) * 1000)"
proof -
  let ?M = "concat (map (\<lambda>item. metrics_of (Collect_item newHelmCollector fl cfg item))
              (listed Run xs))"
  have ret: "Collect newHelmCollector fl cfg Run xs =
      Inr (?M, logs_of (Collect newHelmCollector fl cfg Run xs))"
    by (rule Collect_returns)
  have "map val (named ''helm_chart_timestamp'' ?M) =
        concat (map (\<lambda>item. map val (named ''helm_chart_timestamp''
          (metrics_of (Collect_item newHelmCollector fl cfg item)))) (listed Run xs))"
    by (simp add: named_concat map_concat comp_def)
  also have "\<dots> = map (\<lambda>item. float64_of_int64 (Info_LastDeployed_Unix item * 1000)) (listed Run xs)"
    using assms by (simp add: named_timestamp_item map_concat_single)
  finally have vals: "map val (named ''helm_chart_timestamp'' ?M) =
      map (\<lambda>item. float64_of_int64 (Info_LastDeployed_Unix item * 1000)) (listed Run xs)" .
  have exact: "\<forall>item \<in> set (listed Run xs).
              \<bar>sint (Info_LastDeployed_Unix item) * 1000\<bar> < 2 ^ 53 \<longrightarrow>
              float64_of_int64 (Info_LastDeployed_Unix item * 1000) =
                sint (Info_LastDeployed_Unix item) * 1000"
    by (simp add: float64_millis_exact)
  from ret vals exact show ?thesis by blast
qed

text \<open>
  C1, witness: the scrape of the concrete cluster, where the one release was deployed at
  second 1700000000.
\<close>

theorem timestamp_value_epoch_millis_witness:
  "timestampMetric default_flags \<and>
   listed cluster_Run cluster_entries = [web_release] \<and>
   \<bar>sint (Info_LastDeployed_Unix web_release) * 1000\<bar> < 2 ^ 53 \<and>
   map val (named ''helm_chart_timestamp''
     (metrics_of (Collect newHelmCollector default_flags no_registries cluster_Run
        cluster_entries))) = [1700000000000]"
proof -
  have t: "timestampMetric default_flags" by (simp add: default_flags_def)
  from timestamp_value_epoch_millis [OF t, of no_registries cluster_Run cluster_entries]
  obtain ms lg where
    e: "Collect newHelmCollector default_flags no_registries cluster_Run
          cluster_entries = Inr (ms, lg)" and
    v: "map val (named ''helm_chart_timestamp'' ms) =
          [float64_of_int64 (Info_LastDeployed_Unix web_release * 1000)]" and
    x: "\<bar>sint (Info_LastDeployed_Unix web_release) * 1000\<bar> < 2 ^ 53 \<longrightarrow>
          float64_of_int64 (Info_LastDeployed_Unix web_release * 1000) =
            sint (Info_LastDeployed_Unix web_release) * 1000"
    unfolding listed_cluster by auto
  have "metrics_of (Collect newHelmCollector default_flags no_registries cluster_Run
          cluster_entries) = ms"
    by (rule metrics_of_Inr [OF e])
  with t v x web_release_millis show ?thesis
    by (simp add: listed_cluster)
qed

text \<open>
  C1, as stated, fails: for the release deployed at epoch second 1700000000 the
  \<open>helm_chart_timestamp\<close> value is 1700000000000.
\<close>

theorem timestamp_value_epoch_seconds_counterexample:
  "timestampMetric default_flags \<and>
   listed cluster_Run [(''prod'', 0)] = [web_release] \<and>
   sint (Info_LastDeployed_Unix web_release) = 1700000000 \<and>
   float64_of_int64 (Info_LastDeployed_Unix web_release) = 1700000000 \<and>
   map val (named ''helm_chart_timestamp''
     (metrics_of (Collect newHelmCollector default_flags no_registries cluster_Run
        [(''prod'', 0)]))) = [1700000000000]"
proof -
  have l: "listed cluster_Run [(''prod'', 0)] = [web_release]"
    by (simp add: listed_def cluster_Run_def)
  have "map val (named ''helm_chart_timestamp''
     (metrics_of (Collect newHelmCollector default_flags no_registries cluster_Run
        [(''prod'', 0)]))) = [float64_of_int64 (Info_LastDeployed_Unix web_release * 1000)]"
    unfolding metrics_of_Collect l by (simp add: named_timestamp_item default_flags_def)
  also have "float64_of_int64 (Info_LastDeployed_Unix web_release * 1000) = 1700000000000"
    by (simp only: float64_millis_exact [OF web_release_millis(1)] web_release_millis(2))
  finally show ?thesis
    using l
    by (simp add: default_flags_def web_release_def float64_of_int64_def float64_of_int_exact)
qed

text \<open>
  C2. The status code of each status of the table is the code the table gives, with
  \<open>failed\<close> at \<open>- 1\<close>; a status outside the table has the code \<open>0\<close>, the zero value
  of the map's element type; and in a scrape with the info metric enabled, which
  returns, the values of the \<open>helm_chart_info\<close> metrics are these codes of the statuses,
  release by release over the releases listed.
\<close>

theorem status_code_table:
  "statusCodeMap_at ''unknown'' = 0 \<and>
   statusCodeMap_at ''deployed'' = 1 \<and>
   statusCodeMap_at ''uninstalled'' = 2 \<and>
   statusCodeMap_at ''superseded'' = 3 \<and>
   statusCodeMap_at ''failed'' = - 1 \<and>
   statusCodeMap_at ''uninstalling'' = 5 \<and>
   statusCodeMap_at ''pending-install'' = 6 \<and>
   statusCodeMap_at ''pending-upgrade'' = 7 \<and>
   statusCodeMap_at ''pending-rollback'' = 8 \<and>
   (s \<notin> {''unknown'', ''deployed'', ''uninstalled'', ''superseded'', ''failed'',
          ''uninstalling'', ''pending-install'', ''pending-upgrade'', ''pending-rollback''}
    \<longrightarrow> statusCodeMap_at s = 0) \<and>
   (infoMetric fl \<longrightarrow>
    (\<exists>ms lg. Collect newHelmCollector fl cfg Run xs = Inr (ms, lg) \<and>
       map val (named ''helm_chart_info'' ms) =
         map (\<lambda>item. statusCodeMap_at (Info_Status item)) (listed Run xs)))"
proof -
  have "infoMetric fl \<longrightarrow>
    (\<exists>ms lg. Collect newHelmCollector fl cfg Run xs = Inr (ms, lg) \<and>
       map val (named ''helm_chart_info'' ms) =
         map (\<lambda>item. statusCodeMap_at (Info_Status item)) (listed Run xs))"
    using Collect_returns [of fl cfg Run xs] info_values [of fl cfg "listed Run xs"]
    by blast
  then show ?thesis
    using statusCodeMap_at_default [of s] by (simp only: statusCodeMap_at_table) blast
qed

text \<open>
  C2, witness: a scrape that lists a failed release and a release whose status is no
  entry of the table.
\<close>

theorem status_code_table_witness:
  "''rotten'' \<notin> {''unknown'', ''deployed'', ''uninstalled'', ''superseded'', ''failed'',
          ''uninstalling'', ''pending-install'', ''pending-upgrade'', ''pending-rollback''} \<and>
   statusCodeMap_at ''rotten'' = 0 \<and>
   infoMetric default_flags \<and>
   map val (named ''helm_chart_info''
     (metrics_of (Collect newHelmCollector default_flags no_registries failed_Run
        cluster_entries))) = [- 1, 0, - 1, 0]"
proof -
  have i: "infoMetric default_flags" by (simp add: default_flags_def)
  have l: "map (\<lambda>item. statusCodeMap_at (Info_Status item)) (listed failed_Run cluster_entries)
           = [- 1, statusCodeMap_at ''rotten'', - 1, statusCodeMap_at ''rotten'']"
    by (simp add: listed_def failed_Run_def cluster_entries_def statusCodeMap_at_table)
  from status_code_table [of "''rotten''" default_flags no_registries failed_Run cluster_entries]
  have d: "statusCodeMap_at ''rotten'' = 0" by simp
  from status_code_table [of "''rotten''" default_flags no_registries failed_Run cluster_entries] i
  obtain ms lg where
    e: "Collect newHelmCollector default_flags no_registries failed_Run cluster_entries
          = Inr (ms, lg)" and
    v: "map val (named ''helm_chart_info'' ms) =
          map (\<lambda>item. statusCodeMap_at (Info_Status item)) (listed failed_Run cluster_entries)"
    by blast
  have "metrics_of (Collect newHelmCollector default_flags no_registries failed_Run
          cluster_entries) = ms"
    by (rule metrics_of_Inr [OF e])
  with i d v l show ?thesis by simp
qed

text \<open>
  C3. Whatever the flags, a scrape returns, and its metrics are those of the registry
  entries visited, entry by entry; for an entry whose listing succeeds with the releases
  \<open>items\<close>, the \<open>helm_chart_all_releases_total\<close> metrics are one per release of
  \<open>items\<close>, in order, each a counter on the descriptor with the labels \<open>chart\<close>,
  \<open>release\<close> and \<open>namespace\<close>, with the chart name, release name and namespace of the
  release as label values and the \<open>float64\<close> of its revision as value, which is the
  revision itself below \<open>2^53\<close> in magnitude. Over the whole scrape there are as many
  of these metrics as releases listed.
\<close>

theorem revision_count_samples:
  "\<exists>ms lg. Collect newHelmCollector fl cfg Run (xs :: (string \<times> 'c) list) = Inr (ms, lg) \<and>
     ms = concat (map (\<lambda>entry. metrics_of (Collect_client newHelmCollector fl cfg Run entry)) xs) \<and>
     (\<forall>entry \<in> set xs. \<forall>items. Run (snd entry) = Inr items \<longrightarrow>
        named ''helm_chart_all_releases_total''
          (metrics_of (Collect_client newHelmCollector fl cfg Run entry)) =
        map (\<lambda>item.
              \<lparr>desc = NewDesc ''helm_chart_all_releases_total''
                 ''Total Number of all Helm releases'' [''chart'', ''release'', ''namespace''],
               valType = CounterValue,
               val = float64_of_int64 (Version item),
               labelValues = [Chart_Name item, Name item, Namespace item]\<rparr>) items) \<and>
     length (named ''helm_chart_all_releases_total'' ms) = length (listed Run xs) \<and>
     (\<forall>item. \<bar>sint (Version item)\<bar> < 2 ^ 53 \<longrightarrow>
        float64_of_int64 (Version item) = sint (Version item))"
proof -
  let ?M = "concat (map (\<lambda>item. metrics_of (Collect_item newHelmCollector fl cfg item))
              (listed Run xs))"
  have ret: "Collect newHelmCollector fl cfg Run xs =
      Inr (?M, logs_of (Collect newHelmCollector fl cfg Run xs))"
    by (rule Collect_returns)
  have by_client:
    "?M = concat (map (\<lambda>entry. metrics_of (Collect_client newHelmCollector fl cfg Run entry)) xs)"
    using metrics_of_Collect_by_client [of fl cfg Run xs] by (simp only: metrics_of_Collect)
  have d: "revisionsCounterDesc newHelmCollector =
      NewDesc ''helm_chart_all_releases_total''
        ''Total Number of all Helm releases'' [''chart'', ''release'', ''namespace'']"
    by (simp add: newHelmCollector_def)
  have per_entry: "\<forall>entry \<in> set xs. \<forall>items. Run (snd entry) = Inr items \<longrightarrow>
        named ''helm_chart_all_releases_total''
          (metrics_of (Collect_client newHelmCollector fl cfg Run entry)) =
        map (\<lambda>item.
              \<lparr>desc = NewDesc ''helm_chart_all_releases_total''
                 ''Total Number of all Helm releases'' [''chart'', ''release'', ''namespace''],
               valType = CounterValue,
               val = float64_of_int64 (Version item),
               labelValues = [Chart_Name item, Name item, Namespace item]\<rparr>) items"
  proof (intro ballI allI impI)
    fix entry :: "string \<times> 'c" and items
    assume r: "Run (snd entry) = Inr items"
    then have "listed Run [entry] = items" by (simp add: listed_def)
    then show "named ''helm_chart_all_releases_total''
          (metrics_of (Collect_client newHelmCollector fl cfg Run entry)) =
        map (\<lambda>item.
              \<lparr>desc = NewDesc ''helm_chart_all_releases_total''
                 ''Total Number of all Helm releases'' [''chart'', ''release'', ''namespace''],
               valType = CounterValue,
               val = float64_of_int64 (Version item),
               labelValues = [Chart_Name item, Name item, Namespace item]\<rparr>) items"
      by (simp only: metrics_of_Collect_client revisions_of_items d)
  qed
  have len: "length (named ''helm_chart_all_releases_total'' ?M) = length (listed Run xs)"
    by (simp only: revisions_of_items length_map)
  have exact: "\<forall>item. \<bar>sint (Version item)\<bar> < 2 ^ 53 \<longrightarrow>
        float64_of_int64 (Version item) = sint (Version item)"
    by (simp add: float64_revision_exact)
  from ret by_client per_entry len exact show ?thesis by blast
qed

text \<open>
  C3, witness: the entry of namespace \<open>prod\<close> in the concrete cluster, with its one
  release at revision 3.
\<close>

theorem revision_count_samples_witness:
  "(''prod'', 0) \<in> set cluster_entries \<and>
   cluster_Run (snd (''prod'', 0 :: nat)) = Inr [web_release] \<and>
   \<bar>sint (Version web_release)\<bar> < 2 ^ 53 \<and>
   named ''helm_chart_all_releases_total''
     (metrics_of (Collect_client newHelmCollector default_flags no_registries cluster_Run
        (''prod'', 0))) =
     [\<lparr>desc = NewDesc ''helm_chart_all_releases_total''
         ''Total Number of all Helm releases'' [''chart'', ''release'', ''namespace''],
       valType = CounterValue, val = 3, labelValues = [''nginx'', ''web'', ''prod'']\<rparr>]"
proof -
  have m: "(''prod'', 0) \<in> set cluster_entries" by (simp add: cluster_entries_def)
  have r: "cluster_Run (snd (''prod'', 0 :: nat)) = Inr [web_release]"
    by (simp add: cluster_Run_def)
  have b: "\<bar>sint (Version web_release)\<bar> < 2 ^ 53" by (simp add: web_release_def)
  from revision_count_samples [of default_flags no_registries cluster_Run cluster_entries]
  have s: "named ''helm_chart_all_releases_total''
          (metrics_of (Collect_client newHelmCollector default_flags no_registries cluster_Run
             (''prod'', 0))) =
        map (\<lambda>item.
              \<lparr>desc = NewDesc ''helm_chart_all_releases_total''
                 ''Total Number of all Helm releases'' [''chart'', ''release'', ''namespace''],
               valType = CounterValue,
               val = float64_of_int64 (Version item),
               labelValues = [Chart_Name item, Name item, Namespace item]\<rparr>) [web_release]"
    and x: "float64_of_int64 (Version web_release) = sint (Version web_release)"
    using m r b by blast+
  from m r b s x show ?thesis by (simp add: web_release_def)
qed

text \<open>
  C6. Take two scrapes that differ in the info-metric switch only. Both return. With the
  switch off there is no \<open>helm_chart_info\<close> metric, and the metrics sent are those
  sent with the switch on, in the same order, less the \<open>helm_chart_info\<close> ones: the
  \<open>helm_chart_all_releases_total\<close> metrics and the \<open>helm_chart_timestamp\<close> metrics
  (none when the timestamp switch is off) are the same in both.
\<close>

theorem info_metric_switch_off:
  "\<exists>ms lg ms' lg'.
     Collect newHelmCollector (fl\<lparr>infoMetric := True\<rparr>) cfg Run xs = Inr (ms, lg) \<and>
     Collect newHelmCollector (fl\<lparr>infoMetric := False\<rparr>) cfg Run xs = Inr (ms', lg') \<and>
     named ''helm_chart_info'' ms' = [] \<and>
     ms' = filter (\<lambda>m. fqName (desc m) \<noteq> ''helm_chart_info'') ms \<and>
     named ''helm_chart_all_releases_total'' ms' = named ''helm_chart_all_releases_total'' ms \<and>
     named ''helm_chart_timestamp'' ms' = named ''helm_chart_timestamp'' ms"
proof -
  let ?on = "concat (map (\<lambda>item. metrics_of (Collect_item newHelmCollector (fl\<lparr>infoMetric := True\<rparr>) cfg item))
              (listed Run xs))"
  let ?off = "concat (map (\<lambda>item. metrics_of (Collect_item newHelmCollector (fl\<lparr>infoMetric := False\<rparr>) cfg item))
              (listed Run xs))"
  have on: "Collect newHelmCollector (fl\<lparr>infoMetric := True\<rparr>) cfg Run xs =
      Inr (?on, logs_of (Collect newHelmCollector (fl\<lparr>infoMetric := True\<rparr>) cfg Run xs))"
    by (rule Collect_returns)
  have off: "Collect newHelmCollector (fl\<lparr>infoMetric := False\<rparr>) cfg Run xs =
      Inr (?off, logs_of (Collect newHelmCollector (fl\<lparr>infoMetric := False\<rparr>) cfg Run xs))"
    by (rule Collect_returns)
  have f: "?off = filter (\<lambda>m. fqName (desc m) \<noteq> ''helm_chart_info'') ?on"
    by (rule info_off_items)
  have i: "named ''helm_chart_info'' ?off = []"
    by (simp only: f named_filter_same)
  have r: "named ''helm_chart_all_releases_total'' ?off = named ''helm_chart_all_releases_total'' ?on"
    by (simp only: f) (rule named_filter_other, simp)
  have t: "named ''helm_chart_timestamp'' ?off = named ''helm_chart_timestamp'' ?on"
    by (simp only: f) (rule named_filter_other, simp)
  from on off i f r t show ?thesis by blast
qed

text \<open>
  C10. The flag \<open>count-all-releases-metric\<close> is not read: with any collector, \<open>Collect\<close>
  and \<open>Describe\<close> give the same whatever the value of the flag, all else equal; and
  with the flag off a scrape returns with one \<open>helm_chart_all_releases_total\<close> metric
  for each release listed, carrying its revision.
\<close>

theorem count_all_releases_flag_unused:
  "Collect c (fl\<lparr>countAllReleasesMetric := b\<rparr>) cfg Run xs = Collect c fl cfg Run xs \<and>
   Describe c (fl\<lparr>countAllReleasesMetric := b\<rparr>) = Describe c fl \<and>
   (\<exists>ms lg.
      Collect newHelmCollector (fl\<lparr>countAllReleasesMetric := False\<rparr>) cfg Run xs = Inr (ms, lg) \<and>
      map val (named ''helm_chart_all_releases_total'' ms) =
        map (\<lambda>item. float64_of_int64 (Version item)) (listed Run xs))"
proof -
  let ?fl = "fl\<lparr>countAllReleasesMetric := False\<rparr>"
  let ?M = "concat (map (\<lambda>item. metrics_of (Collect_item newHelmCollector ?fl cfg item))
              (listed Run xs))"
  have ret: "Collect newHelmCollector ?fl cfg Run xs =
      Inr (?M, logs_of (Collect newHelmCollector ?fl cfg Run xs))"
    by (rule Collect_returns)
  have v: "map val (named ''helm_chart_all_releases_total'' ?M) =
        map (\<lambda>item. float64_of_int64 (Version item)) (listed Run xs)"
    by (simp only: revisions_of_items) (simp add: comp_def)
  have d: "Describe c (fl\<lparr>countAllReleasesMetric := b\<rparr>) = Describe c fl"
    by (simp add: Describe_def)
  from ret v d Collect_count_flag [of c b fl cfg Run xs] show ?thesis by blast
qed

text \<open>
  C4. Let the registry entry of namespace \<open>N\<close> stand anywhere among the entries
  visited, and let its listing fail (\<open>Run\<close>); let \<open>Run'\<close> be the listing results had
  it succeeded, with some releases \<open>items\<close>, the listings of all other entries being
  the same. Then the scrape returns in both cases, having logged the warning in the
  first; what each other entry contributes is the same in both; and the metrics of the
  scrape are those of the entries before and after \<open>N\<close>, with, in the second case, those
  of \<open>items\<close> in between. The failure of \<open>N\<close> takes nothing from any other namespace.
\<close>

theorem listing_failure_isolated:
  assumes "Run cN = Inl err"
    and "Run' cN = Inr items"
    and "\<forall>entry \<in> set (before @ after). Run' (snd entry) = Run (snd entry)"
  shows "\<exists>mb lb ma la mN lN.
     Collect newHelmCollector fl cfg Run before = Inr (mb, lb) \<and>
     Collect newHelmCollector fl cfg Run after = Inr (ma, la) \<and>
     Collect_items newHelmCollector fl cfg items = Inr (mN, lN) \<and>
     Collect newHelmCollector fl cfg Run (before @ (N, cN) # after) =
       Inr (mb @ ma, lb @ Warnf (''got error while listing '' @ err) # la) \<and>
     Collect newHelmCollector fl cfg Run' (before @ (N, cN) # after) =
       Inr (mb @ mN @ ma, lb @ lN @ la) \<and>
     (\<forall>entry \<in> set (before @ after).
        Collect_client newHelmCollector fl cfg Run' entry =
        Collect_client newHelmCollector fl cfg Run entry)"
proof -
  obtain mb lb where b: "Collect newHelmCollector fl cfg Run before = Inr (mb, lb)"
    using Collect_returns [of fl cfg Run before] by blast
  obtain ma la where a: "Collect newHelmCollector fl cfg Run after = Inr (ma, la)"
    using Collect_returns [of fl cfg Run after] by blast
  obtain mN lN where n: "Collect_items newHelmCollector fl cfg items = Inr (mN, lN)"
    using Collect_items_returns [of fl cfg items] by blast
  from assms(3) have "\<forall>entry \<in> set before. Run' (snd entry) = Run (snd entry)"
    and "\<forall>entry \<in> set after. Run' (snd entry) = Run (snd entry)"
    by simp_all
  then have b': "Collect newHelmCollector fl cfg Run' before = Inr (mb, lb)"
    and a': "Collect newHelmCollector fl cfg Run' after = Inr (ma, la)"
    by (simp_all only: Collect_cong [of _ Run' Run] b a)
  have failing: "Collect_client newHelmCollector fl cfg Run (N, cN) =
      Inr ([], [Warnf (''got error while listing '' @ err)])"
    using assms(1) by (simp add: Collect_client_def logged_def)
  have succeeding: "Collect_client newHelmCollector fl cfg Run' (N, cN) = Inr (mN, lN)"
    using assms(2) n by (simp add: Collect_client_def)
  have failed: "Collect newHelmCollector fl cfg Run (before @ (N, cN) # after) =
       Inr (mb @ ma, lb @ Warnf (''got error while listing '' @ err) # la)"
    by (simp add: Collect_append b a failing seq_Inr)
  have succeeded: "Collect newHelmCollector fl cfg Run' (before @ (N, cN) # after) =
       Inr (mb @ mN @ ma, lb @ lN @ la)"
    by (simp add: Collect_append b' a' succeeding seq_Inr)
  have others: "\<forall>entry \<in> set (before @ after).
        Collect_client newHelmCollector fl cfg Run' entry =
        Collect_client newHelmCollector fl cfg Run entry"
    using assms(3) by (intro ballI Collect_client_cong) blast
  show ?thesis
    by (intro exI conjI) (rule b a n failed succeeded others)+
qed

text \<open>
  C4, witness: in the concrete cluster the listing of \<open>dev\<close> fails; had it succeeded,
  \<open>prod\<close> would contribute the same metrics.
\<close>

theorem listing_failure_isolated_witness:
  "cluster_Run 1 = Inl ''timeout'' \<and>
   healthy_Run 1 = Inr [api_release] \<and>
   healthy_Run (snd (''prod'', 0 :: nat)) = cluster_Run (snd (''prod'', 0 :: nat)) \<and>
   metrics_of (Collect newHelmCollector default_flags no_registries cluster_Run
     ([(''prod'', 0)] @ (''dev'', 1) # [])) =
   metrics_of (Collect newHelmCollector default_flags no_registries cluster_Run [(''prod'', 0)]) \<and>
   metrics_of (Collect newHelmCollector default_flags no_registries healthy_Run
     ([(''prod'', 0)] @ (''dev'', 1) # [])) =
   metrics_of (Collect newHelmCollector default_flags no_registries cluster_Run [(''prod'', 0)])
   @ metrics_of (Collect_items newHelmCollector default_flags no_registries [api_release])"
proof -
  have f: "cluster_Run 1 = Inl ''timeout''" by (simp add: cluster_Run_def)
  have s: "healthy_Run 1 = Inr [api_release]" by (simp add: healthy_Run_def)
  have o: "\<forall>entry \<in> set ([(''prod'', 0 :: nat)] @ []). healthy_Run (snd entry) = cluster_Run (snd entry)"
    by (simp add: healthy_Run_def cluster_Run_def)
  have p: "healthy_Run (snd (''prod'', 0 :: nat)) = cluster_Run (snd (''prod'', 0 :: nat))"
    using o by simp
  from listing_failure_isolated [OF f s o, of default_flags no_registries "''dev''"]
  obtain mb lb ma la mN lN where
    b: "Collect newHelmCollector default_flags no_registries cluster_Run [(''prod'', 0)] = Inr (mb, lb)" and
    a: "Collect newHelmCollector default_flags no_registries cluster_Run [] = Inr (ma, la)" and
    n: "Collect_items newHelmCollector default_flags no_registries [api_release] = Inr (mN, lN)" and
    failed: "Collect newHelmCollector default_flags no_registries cluster_Run
       ([(''prod'', 0)] @ (''dev'', 1) # []) =
       Inr (mb @ ma, lb @ Warnf (''got error while listing '' @ ''timeout'') # la)" and
    succeeded: "Collect newHelmCollector default_flags no_registries healthy_Run
       ([(''prod'', 0)] @ (''dev'', 1) # []) = Inr (mb @ mN @ ma, lb @ lN @ la)"
    by (elim exE conjE) (rule that)
  from a have ma: "ma = []" by (simp add: skip_def)
  from f s p show ?thesis
    by (simp only: metrics_of_Inr [OF b] metrics_of_Inr [OF n] metrics_of_Inr [OF failed]
        metrics_of_Inr [OF succeeded] ma append_Nil2 simp_thms)
qed



text \<open>
  C8. When the configuration for namespace \<open>N\<close> cannot be built, \<open>connect\<close> appends
  one warning to the log and changes nothing else: the registry is as before, so a
  namespace without an entry stays without one. The process goes on: the loop of \<open>main\<close>
  continues with the remaining namespaces, and the handlers with the remaining events,
  from that state.
\<close>

theorem connect_failure_non_fatal:
  assumes "Init N = Inl err"
  shows "connect Init N s =
           s\<lparr>logs := logs s @ [Warnf (''failed to connect to '' @ N @ '' with '' @ err)]\<rparr> \<and>
         clients (connect Init N s) = clients s \<and>
         (clients s N = None \<longrightarrow> clients (connect Init N s) N = None) \<and>
         main_connect Init (N # rest) s =
           main_connect Init rest
             (s\<lparr>logs := logs s @ [Warnf (''failed to connect to '' @ N @ '' with '' @ err)]\<rparr>) \<and>
         deliver Init (Added (Namespace_object N) # events) s =
           deliver Init events
             (s\<lparr>logs := logs s @ [Warnf (''failed to connect to '' @ N @ '' with '' @ err)]\<rparr>)"
  using assms by (simp add: connect_def AddFunc_def GetName_def)

text \<open>
  C8, witness: from the empty registry, namespace \<open>dev\<close> cannot be reached and is
  left without an entry; the loop of \<open>main\<close> then connects \<open>prod\<close>.
\<close>

theorem connect_failure_non_fatal_witness:
  "cluster_Init ''dev'' = Inl ''unreachable'' \<and>
   clients no_clients ''dev'' = None \<and>
   connect cluster_Init ''dev'' no_clients =
     \<lparr>clients = Map.empty,
      logs = [Warnf ''failed to connect to dev with unreachable'']\<rparr> \<and>
   clients (connect cluster_Init ''dev'' no_clients) ''dev'' = None \<and>
   main_connect cluster_Init [''dev'', ''prod''] no_clients =
     \<lparr>clients = [''prod'' \<mapsto> 0],
      logs = [Warnf ''failed to connect to dev with unreachable'',
              Infof ''Watching namespace prod'']\<rparr>"
proof -
  have f: "cluster_Init ''dev'' = Inl ''unreachable''" by (simp add: cluster_Init_def)
  have n: "clients no_clients ''dev'' = None" by (simp add: no_clients_def)
  from connect_failure_non_fatal
    [of cluster_Init "''dev''" "''unreachable''" no_clients "[''prod'']" "[]", OF f]
  have c: "connect cluster_Init ''dev'' no_clients =
        no_clients\<lparr>logs := logs no_clients @
          [Warnf (''failed to connect to '' @ ''dev'' @ '' with '' @ ''unreachable'')]\<rparr>"
    and k: "clients no_clients ''dev'' = None \<longrightarrow>
        clients (connect cluster_Init ''dev'' no_clients) ''dev'' = None"
    and m: "main_connect cluster_Init [''dev'', ''prod''] no_clients =
        main_connect cluster_Init [''prod'']
          (no_clients\<lparr>logs := logs no_clients @
            [Warnf (''failed to connect to '' @ ''dev'' @ '' with '' @ ''unreachable'')]\<rparr>)"
    by blast+
  have p: "main_connect cluster_Init [''prod'']
          (no_clients\<lparr>logs := logs no_clients @
            [Warnf (''failed to connect to '' @ ''dev'' @ '' with '' @ ''unreachable'')]\<rparr>) =
      \<lparr>clients = [''prod'' \<mapsto> 0],
       logs = [Warnf ''failed to connect to dev with unreachable'',
               Infof ''Watching namespace prod'']\<rparr>"
    by (simp add: connect_def cluster_Init_def no_clients_def)
  from f n c k m p show ?thesis by (simp add: no_clients_def)
qed




text \<open>
  C9. Take two consecutive scrapes of a process, with the same flags and the same
  listing results, each visiting the entries of the registry in an order of its own, the
  chart lookups possibly resolving differently in the second. The first scrape leaves
  the registry as it was, so both range over the same entries. Both return, and they
  send the same metrics (same descriptors, values and label values, each as many times),
  up to the value of the label \<open>latestVersion\<close>; when the lookups resolve the same, they
  send the same metrics outright.
\<close>

theorem consecutive_scrapes:
  assumes "Items (clients s) xs"
    and "scrape newHelmCollector fl cfg Run xs s = (r1, s1)"
    and "Items (clients s1) ys"
    and "scrape newHelmCollector fl cfg' Run ys s1 = (r2, s2)"
  shows "clients s1 = clients s \<and> clients s2 = clients s \<and>
     (\<exists>ms ms'. r1 = Inr ms \<and> r2 = Inr ms' \<and>
        mset (map without_latestVersion ms') = mset (map without_latestVersion ms) \<and>
        (HelmRegistries cfg' = HelmRegistries cfg \<longrightarrow> mset ms' = mset ms))"
proof -
  let ?f = "\<lambda>cfg item. metrics_of (Collect_item newHelmCollector fl cfg item)"
  let ?ms = "concat (map (?f cfg) (listed Run xs))"
  let ?ms' = "concat (map (?f cfg') (listed Run ys))"
  from assms(2) have r1: "r1 = Inr ?ms" and s1: "clients s1 = clients s"
    by (auto simp: scrape_new)
  from assms(4) have r2: "r2 = Inr ?ms'" and s2: "clients s2 = clients s1"
    by (auto simp: scrape_new)
  from assms(1,3) s1 have "mset ys = mset xs"
    by (simp add: Items_mset [of "clients s" ys xs])
  then have l: "mset (listed Run ys) = mset (listed Run xs)"
    unfolding listed_def by (rule mset_concat_map_cong)
  have "map without_latestVersion ?ms' =
        concat (map (\<lambda>item. map without_latestVersion (?f cfg' item)) (listed Run ys))"
    by (simp add: map_concat comp_def)
  also have "\<dots> = concat (map (\<lambda>item. map without_latestVersion (?f cfg item)) (listed Run ys))"
    by (simp only: without_latestVersion_item [of fl cfg' _ cfg])
  finally have "mset (map without_latestVersion ?ms') =
      mset (concat (map (\<lambda>item. map without_latestVersion (?f cfg item)) (listed Run xs)))"
    using mset_concat_map_cong [OF l] by simp
  also have "concat (map (\<lambda>item. map without_latestVersion (?f cfg item)) (listed Run xs)) =
      map without_latestVersion ?ms"
    by (simp add: map_concat comp_def)
  finally have modulo: "mset (map without_latestVersion ?ms') = mset (map without_latestVersion ?ms)" .
  have same: "HelmRegistries cfg' = HelmRegistries cfg \<longrightarrow> mset ?ms' = mset ?ms"
  proof
    assume "HelmRegistries cfg' = HelmRegistries cfg"
    then have "?ms' = concat (map (?f cfg) (listed Run ys))"
      by (simp only: same_registries_item [of cfg' cfg])
    then show "mset ?ms' = mset ?ms"
      using mset_concat_map_cong [OF l, of "?f cfg"] by simp
  qed
  from r1 r2 s1 s2 modulo same show ?thesis by simp
qed


text \<open>
  C9, witness: two scrapes of the watching process, the second visiting the entries in
  the other order and finding a latest version for every chart.
\<close>

theorem consecutive_scrapes_witness:
  "Items (clients watching) watching_entries \<and>
   Items (clients (snd (scrape newHelmCollector default_flags no_registries healthy_Run
      watching_entries watching))) watching_entries' \<and>
   clients (snd (scrape newHelmCollector default_flags no_registries healthy_Run
      watching_entries watching)) = clients watching \<and>
   mset (map without_latestVersion
     (metrics_of (Collect newHelmCollector default_flags found_registries healthy_Run
        watching_entries'))) =
   mset (map without_latestVersion
     (metrics_of (Collect newHelmCollector default_flags no_registries healthy_Run
        watching_entries)))"
proof -
  let ?first = "scrape newHelmCollector default_flags no_registries healthy_Run
      watching_entries watching"
  let ?second = "scrape newHelmCollector default_flags found_registries healthy_Run
      watching_entries' (snd ?first)"
  have "map_of watching_entries k = clients watching k" for k
    by (simp add: watching_def watching_entries_def)
  then have "map_of watching_entries = clients watching"
    by (rule ext)
  moreover have "distinct (map fst watching_entries)"
    by (simp add: watching_entries_def)
  ultimately have i: "Items (clients watching) watching_entries"
    unfolding Items_def by blast
  have c: "clients (snd ?first) = clients watching"
    by (rule scrape_clients)
  have "map_of watching_entries' k = clients watching k" for k
    by (simp add: watching_def watching_entries'_def)
  then have "map_of watching_entries' = clients watching"
    by (rule ext)
  moreover have "distinct (map fst watching_entries')"
    by (simp add: watching_entries'_def)
  ultimately have i': "Items (clients (snd ?first)) watching_entries'"
    unfolding c Items_def by blast
  have p1: "?first = (fst ?first, snd ?first)" by simp
  have p2: "?second = (fst ?second, snd ?second)" by simp
  from consecutive_scrapes [OF i p1 i' p2]
  obtain ms ms' where r1: "fst ?first = Inr ms" and r2: "fst ?second = Inr ms'"
    and m: "mset (map without_latestVersion ms') = mset (map without_latestVersion ms)"
    by blast
  from r1 have "metrics_of (Collect newHelmCollector default_flags no_registries healthy_Run
        watching_entries) = ms"
    by (simp add: scrape_def metrics_of_def split: sum.splits prod.splits)
  moreover from r2 have "metrics_of (Collect newHelmCollector default_flags found_registries
        healthy_Run watching_entries') = ms'"
    by (simp add: scrape_def metrics_of_def split: sum.splits prod.splits)
  ultimately show ?thesis
    using i i' c m by simp
qed

end
